theory Spec2Isabelle
  imports Main "HOL-Library.AList" "HOL-Library.Sublist"
begin

section \<open>Values and exceptions\<close>

text \<open>
  The module \<^verbatim>\<open>swarm/util.py\<close> works on JSON-like Python values: the streaming
  accumulator and the delta fragments of \<^verbatim>\<open>merge_chunk\<close>, and the schema dictionary
  returned by \<^verbatim>\<open>function_to_json\<close>.

  A Python \<^verbatim>\<open>dict\<close> with string keys is an association list in insertion order; lookup is
  \<open>map_of\<close>, item assignment is \<open>AList.update\<close> (which keeps the position of an existing key
  and appends a new one, as a Python dict does), \<^verbatim>\<open>pop\<close> is \<open>AList.delete\<close>.
  A float is kept as mantissa and exponent; the code only ever observes whether it is zero.
  Strings are lists of characters read as code points below 256.

  Objects are modelled as values: the accumulator and the delta are taken to be trees that
  share no sub-object with each other, so that a mutation in place of a nested object is the
  replacement of that object at its position.
\<close>

datatype json =
    JNull
  | JBool bool
  | JInt int
  | JFloat int int
  | JStr string
  | JList "json list"
  | JObj "(string \<times> json) list"

datatype py_error =
    KeyError
  | TypeError
  | IndexError
  | AttributeError
  | ValueError string
  | NameError string

section \<open>Python primitives used by the merger\<close>

text \<open>An integer index: \<^verbatim>\<open>bool\<close> is a subclass of \<^verbatim>\<open>int\<close> in Python.\<close>

fun as_index :: "json \<Rightarrow> int option" where
  "as_index (JInt i) = Some i"
| "as_index (JBool b) = Some (if b then 1 else 0)"
| "as_index _ = None"

text \<open>Position addressed by index \<open>i\<close> in a sequence of length \<open>n\<close>; negative indices count
  from the end; \<open>None\<close> is Python's IndexError.\<close>

definition seq_pos :: "nat \<Rightarrow> int \<Rightarrow> nat option" where
  "seq_pos n i =
     (let j = (if i < 0 then int n + i else i)
      in if 0 \<le> j \<and> j < int n then Some (nat j) else None)"

text \<open>
  The subscript expression \<^verbatim>\<open>container[k]\<close>. Dictionaries here have string keys only, so
  any other hashable key is absent (KeyError) and an unhashable one is a TypeError.
\<close>

fun getitem :: "json \<Rightarrow> json \<Rightarrow> py_error + json" where
  "getitem (JObj kvs) k =
     (case k of
        JStr s \<Rightarrow> (case map_of kvs s of None \<Rightarrow> Inl KeyError | Some v \<Rightarrow> Inr v)
      | JList _ \<Rightarrow> Inl TypeError
      | JObj _ \<Rightarrow> Inl TypeError
      | _ \<Rightarrow> Inl KeyError)"
| "getitem (JList xs) k =
     (case as_index k of
        None \<Rightarrow> Inl TypeError
      | Some i \<Rightarrow>
          (case seq_pos (length xs) i of
             None \<Rightarrow> Inl IndexError
           | Some j \<Rightarrow> Inr (xs ! j)))"
| "getitem (JStr s) k =
     (case as_index k of
        None \<Rightarrow> Inl TypeError
      | Some i \<Rightarrow>
          (case seq_pos (length s) i of
             None \<Rightarrow> Inl IndexError
           | Some j \<Rightarrow> Inr (JStr [s ! j])))"
| "getitem _ k = Inl TypeError"

text \<open>
  \<open>store_back c k v\<close> is the container \<open>c\<close> once the object that \<^verbatim>\<open>c[k]\<close> refers to has
  become \<open>v\<close>: the item assignment \<^verbatim>\<open>c[k] = v\<close> on a dict, and the effect on a dict or list
  \<open>c\<close> of mutating the element \<^verbatim>\<open>c[k]\<close> in place. A string is immutable, and the
  character that \<^verbatim>\<open>s[k]\<close> yields is a fresh object.
\<close>

fun store_back :: "json \<Rightarrow> json \<Rightarrow> json \<Rightarrow> json" where
  "store_back (JObj kvs) (JStr s) v = JObj (AList.update s v kvs)"
| "store_back (JList xs) k v =
     (case as_index k of
        None \<Rightarrow> JList xs
      | Some i \<Rightarrow>
          (case seq_pos (length xs) i of
             None \<Rightarrow> JList xs
           | Some j \<Rightarrow> JList (xs[j := v])))"
| "store_back c k v = c"

text \<open>
  The augmented assignment \<^verbatim>\<open>x += value\<close> for a \<^verbatim>\<open>str\<close> value: concatenation on
  a string, \<^verbatim>\<open>list.__iadd__\<close> (extension by the characters) on a list, TypeError otherwise.
\<close>

fun iadd_str :: "json \<Rightarrow> string \<Rightarrow> py_error + json" where
  "iadd_str (JStr a) s = Inr (JStr (a @ s))"
| "iadd_str (JList xs) s = Inr (JList (xs @ map (\<lambda>c. JStr [c]) s))"
| "iadd_str _ s = Inl TypeError"

text \<open>Truth value of an object, as tested by \<^verbatim>\<open>if tool_calls and ...\<close>.\<close>

fun truthy :: "json \<Rightarrow> bool" where
  "truthy JNull = False"
| "truthy (JBool b) = b"
| "truthy (JInt i) = (i \<noteq> 0)"
| "truthy (JFloat m e) = (m \<noteq> 0)"
| "truthy (JStr s) = (s \<noteq> [])"
| "truthy (JList xs) = (xs \<noteq> [])"
| "truthy (JObj kvs) = (kvs \<noteq> [])"

fun py_len :: "json \<Rightarrow> py_error + nat" where
  "py_len (JStr s) = Inr (length s)"
| "py_len (JList xs) = Inr (length xs)"
| "py_len (JObj kvs) = Inr (length kvs)"
| "py_len _ = Inl TypeError"

text \<open>
  \<^verbatim>\<open>x.pop("index")\<close>: on a dict the value and the dict without the key, KeyError when the
  key is missing; \<^verbatim>\<open>list.pop\<close> rejects a string argument; other values have no
  \<^verbatim>\<open>pop\<close>.
\<close>

fun pop_index :: "json \<Rightarrow> py_error + (json \<times> (string \<times> json) list)" where
  "pop_index (JObj tc) =
     (case map_of tc ''index'' of
        None \<Rightarrow> Inl KeyError
      | Some i \<Rightarrow> Inr (i, AList.delete ''index'' tc))"
| "pop_index (JList ys) = Inl TypeError"
| "pop_index _ = Inl AttributeError"

section \<open>The delta merger\<close>

text \<open>
  \<^verbatim>\<open>
  def merge_fields(target, source):
      for key, value in source.items():
          if isinstance(value, str):
              target[key] += value
          elif value is not None and isinstance(value, dict):
              merge_fields(target[key], value)
  \<close>
  The function mutates \<open>target\<close> and may raise half-way: the result is the target as the
  call leaves it, together with the exception, if any.
\<close>

function merge_fields :: "json \<Rightarrow> (string \<times> json) list \<Rightarrow> json \<times> py_error option" where
  "merge_fields target [] = (target, None)"
| "merge_fields target ((key, val) # rest) =
     (case val of
        JStr s \<Rightarrow>
          (case getitem target (JStr key) of
             Inl e \<Rightarrow> (target, Some e)
           | Inr cur \<Rightarrow>
               (case iadd_str cur s of
                  Inl e \<Rightarrow> (target, Some e)
                | Inr new \<Rightarrow> merge_fields (store_back target (JStr key) new) rest))
      | JObj src \<Rightarrow>
          (case getitem target (JStr key) of
             Inl e \<Rightarrow> (target, Some e)
           | Inr sub \<Rightarrow>
               (case merge_fields sub src of
                  (sub', Some e) \<Rightarrow> (store_back target (JStr key) sub', Some e)
                | (sub', None) \<Rightarrow> merge_fields (store_back target (JStr key) sub') rest))
      | _ \<Rightarrow> merge_fields target rest)"
  by pat_completeness auto
termination
  by (relation "measure (\<lambda>(t, s). size (JObj s))") auto

text \<open>
  \<^verbatim>\<open>
  def merge_chunk(final_response: dict, delta: dict) -> None:
      delta.pop("role", None)
      merge_fields(final_response, delta)

      tool_calls = delta.get("tool_calls")
      if tool_calls and len(tool_calls) > 0:
          index = tool_calls[0].pop("index")
          merge_fields(final_response["tool_calls"][index], tool_calls[0])
  \<close>
  The result is the accumulator and the delta as the call leaves them, and the exception
  raised, if any.
\<close>

definition merge_chunk ::
  "json \<Rightarrow> (string \<times> json) list \<Rightarrow> json \<times> (string \<times> json) list \<times> py_error option" where
  "merge_chunk final_response delta0 =
     (let delta = AList.delete ''role'' delta0 in
      case merge_fields final_response delta of
        (fr, Some e) \<Rightarrow> (fr, delta, Some e)
      | (fr, None) \<Rightarrow>
          (case map_of delta ''tool_calls'' of
             None \<Rightarrow> (fr, delta, None)
           | Some tool_calls \<Rightarrow>
               if \<not> truthy tool_calls then (fr, delta, None)
               else
                 (case py_len tool_calls of
                    Inl e \<Rightarrow> (fr, delta, Some e)
                  | Inr n \<Rightarrow>
                      if \<not> 0 < n then (fr, delta, None)
                      else
                        (case getitem tool_calls (JInt 0) of
                           Inl e \<Rightarrow> (fr, delta, Some e)
                         | Inr first \<Rightarrow>
                             (case pop_index first of
                                Inl e \<Rightarrow> (fr, delta, Some e)
                              | Inr (index, src) \<Rightarrow>
                                  (let delta' = AList.update ''tool_calls''
                                         (store_back tool_calls (JInt 0) (JObj src)) delta in
                                   case getitem fr (JStr ''tool_calls'') of
                                     Inl e \<Rightarrow> (fr, delta', Some e)
                                   | Inr tcs \<Rightarrow>
                                       (case getitem tcs index of
                                          Inl e \<Rightarrow> (fr, delta', Some e)
                                        | Inr elem \<Rightarrow>
                                            (case merge_fields elem src of
                                               (elem', err) \<Rightarrow>
                                                 (store_back fr (JStr ''tool_calls'')
                                                    (store_back tcs index elem'),
                                                  delta', err)))))))))"

section \<open>The docstring parser\<close>

text \<open>Python's string methods, on code points below 256.\<close>

definition is_space :: "char \<Rightarrow> bool" where
  "is_space c = (of_char c \<in> {9, 10, 11, 12, 13, 28, 29, 30, 31, 32, 133, 160 :: nat})"

definition strip :: "string \<Rightarrow> string" where
  "strip s = rev (dropWhile is_space (rev (dropWhile is_space s)))"

definition lower_char :: "char \<Rightarrow> char" where
  "lower_char c =
     (let n = (of_char c :: nat)
      in if (65 \<le> n \<and> n \<le> 90) \<or> (192 \<le> n \<and> n \<le> 222 \<and> n \<noteq> 215)
         then char_of (n + 32) else c)"

definition lower :: "string \<Rightarrow> string" where
  "lower s = map lower_char s"

definition startswith :: "string \<Rightarrow> string \<Rightarrow> bool" where
  "startswith s p = (take (length p) s = p)"

text \<open>\<^verbatim>\<open>s.split(c)\<close> for a single character: never an empty list.\<close>

fun split :: "char \<Rightarrow> string \<Rightarrow> string list" where
  "split c [] = [[]]"
| "split c (x # xs) =
     (if x = c then [] # split c xs
      else (case split c xs of
              [] \<Rightarrow> [[x]]
            | y # ys \<Rightarrow> (x # y) # ys))"

text \<open>\<^verbatim>\<open>sep.join(xs)\<close>.\<close>

fun join :: "string \<Rightarrow> string list \<Rightarrow> string" where
  "join sep [] = []"
| "join sep [x] = x"
| "join sep (x # y # ys) = x @ sep @ join sep (y # ys)"

text \<open>The two parts of \<^verbatim>\<open>line.split(":", 1)\<close> of a line that contains a colon.\<close>

definition before_colon :: "string \<Rightarrow> string" where
  "before_colon line = takeWhile (\<lambda>c. c \<noteq> CHR '':'') line"

definition after_colon :: "string \<Rightarrow> string" where
  "after_colon line = tl (dropWhile (\<lambda>c. c \<noteq> CHR '':'') line)"

text \<open>The local variables of \<^verbatim>\<open>parse_docstring\<close>.\<close>

record parse_state =
  description :: "string list"
  arg_descriptions :: "(string \<times> string) list"
  current_param :: "string option"
  in_args_section :: bool

text \<open>
  The body of the loop over the lines, applied to the raw line:
  \<^verbatim>\<open>
      line = line.strip()
      if line.lower().startswith("args:"):
          in_args_section = True
          continue
      if not in_args_section:
          description.append(line)
      else:
          if ":" in line:
              parts = line.split(":", 1)
              current_param = parts[0].strip()
              param_desc = parts[1].strip()
              arg_descriptions[current_param] = param_desc
          elif current_param and line:
              arg_descriptions[current_param] += " " + line
  \<close>
  In the last branch \<open>current_param\<close> is a key of \<open>arg_descriptions\<close>: it was stored
  there when it was set, and no key is ever removed (lemma \<open>current_param_is_key\<close> below).
  \<open>AList.map_entry\<close> is the update of that existing entry.
\<close>

definition parse_line :: "parse_state \<Rightarrow> string \<Rightarrow> parse_state" where
  "parse_line st raw =
     (let line = strip raw in
      if startswith (lower line) ''args:'' then st\<lparr>in_args_section := True\<rparr>
      else if \<not> in_args_section st then st\<lparr>description := description st @ [line]\<rparr>
      else if CHR '':'' \<in> set line then
        (let param = strip (before_colon line);
             param_desc = strip (after_colon line)
         in st\<lparr>current_param := Some param,
               arg_descriptions := AList.update param param_desc (arg_descriptions st)\<rparr>)
      else
        (case current_param st of
           None \<Rightarrow> st
         | Some param \<Rightarrow>
             if param \<noteq> [] \<and> line \<noteq> [] then
               st\<lparr>arg_descriptions :=
                    AList.map_entry param (\<lambda>d. d @ '' '' @ line) (arg_descriptions st)\<rparr>
             else st))"

fun parse_lines :: "parse_state \<Rightarrow> string list \<Rightarrow> parse_state" where
  "parse_lines st [] = st"
| "parse_lines st (raw # rest) = parse_lines (parse_line st raw) rest"

definition parse_init :: parse_state where
  "parse_init =
     \<lparr>description = [], arg_descriptions = [], current_param = None, in_args_section = False\<rparr>"

definition parse_docstring :: "string \<Rightarrow> string \<times> (string \<times> string) list" where
  "parse_docstring docstring =
     (let st = parse_lines parse_init (split CHR ''\<newline>'' docstring);
          full_description = strip (join '' '' (description st))
      in (full_description, if in_args_section st then arg_descriptions st else []))"

section \<open>The schema builder\<close>

text \<open>
  What \<^verbatim>\<open>function_to_json\<close> reads of its argument through \<^verbatim>\<open>inspect\<close> and
  \<^verbatim>\<open>typing\<close>. The callable is a function object with a \<^verbatim>\<open>__name__\<close>.

  A parameter of the signature has a name and a default, \<open>None\<close> standing for
  \<^verbatim>\<open>inspect.Parameter.empty\<close>.
\<close>

record param =
  p_name :: string
  p_default :: "json option"

text \<open>
  The objects an annotation can resolve to: the seven keys of \<^verbatim>\<open>type_map\<close>,
  \<^verbatim>\<open>typing.Any\<close>, and any other object, of which only the \<^verbatim>\<open>__name__\<close> attribute
  (which it may lack) is read. The name of \<^verbatim>\<open>typing.Any\<close> is \<^verbatim>\<open>"Any"\<close>, as the
  comparison in the loop expects (Python 3.10 and later).
\<close>

datatype py_type =
    T_str | T_int | T_float | T_bool | T_list | T_dict | T_NoneType
  | T_Any
  | T_other "string option"

text \<open>
  An entry of \<^verbatim>\<open>func.__annotations__\<close> as \<^verbatim>\<open>typing.get_type_hints\<close> sees it: it
  resolves to a type, or its evaluation raises (NameError for a forward reference to an
  undefined name).
\<close>

datatype annotation = Resolved py_type | Unresolvable py_error

text \<open>
  \<open>c_signature\<close> is the outcome of \<^verbatim>\<open>inspect.signature(func)\<close>: the parameters in
  declaration order, or \<open>Inl cause\<close> when it raises \<^verbatim>\<open>ValueError(cause)\<close>.
  \<open>c_doc\<close> is the outcome of \<^verbatim>\<open>inspect.getdoc(func)\<close>. \<open>c_annotations\<close> is
  \<^verbatim>\<open>func.__annotations__\<close>: a parameter has an annotation when its name is a key of it
  (the key \<^verbatim>\<open>return\<close> holds the annotation of the result).
\<close>

record callable =
  c_name :: string
  c_signature :: "string + param list"
  c_doc :: "string option"
  c_annotations :: "(string \<times> annotation) list"

text \<open>\<^verbatim>\<open>get_type_hints(func)\<close>: the resolved annotations, or the first exception.\<close>

fun get_type_hints :: "(string \<times> annotation) list \<Rightarrow> py_error + (string \<times> py_type) list" where
  "get_type_hints [] = Inr []"
| "get_type_hints ((n, Resolved t) # rest) =
     (case get_type_hints rest of
        Inl e \<Rightarrow> Inl e
      | Inr hints \<Rightarrow> Inr ((n, t) # hints))"
| "get_type_hints ((n, Unresolvable e) # rest) = Inl e"

text \<open>The dictionary \<^verbatim>\<open>type_map\<close>.\<close>

fun type_map :: "py_type \<Rightarrow> string option" where
  "type_map T_str = Some ''string''"
| "type_map T_int = Some ''integer''"
| "type_map T_float = Some ''number''"
| "type_map T_bool = Some ''boolean''"
| "type_map T_list = Some ''array''"
| "type_map T_dict = Some ''object''"
| "type_map T_NoneType = Some ''null''"
| "type_map _ = None"

text \<open>The attribute \<^verbatim>\<open>param_type.__name__\<close>.\<close>

fun type_name :: "py_type \<Rightarrow> py_error + string" where
  "type_name T_str = Inr ''str''"
| "type_name T_int = Inr ''int''"
| "type_name T_float = Inr ''float''"
| "type_name T_bool = Inr ''bool''"
| "type_name T_list = Inr ''list''"
| "type_name T_dict = Inr ''dict''"
| "type_name T_NoneType = Inr ''NoneType''"
| "type_name T_Any = Inr ''Any''"
| "type_name (T_other (Some n)) = Inr n"
| "type_name (T_other None) = Inl AttributeError"

text \<open>
  \<^verbatim>\<open>
      try:
          param_type = type_hints.get(param_name, Any)
          param_type_str = type_map.get(param_type, param_type.__name__)
          if param_type_str == "Any":
              param_type_str = "string"
      except KeyError as e:
          raise KeyError(...)
  \<close>
  The default argument \<^verbatim>\<open>param_type.__name__\<close> is evaluated before the lookup. Neither
  \<^verbatim>\<open>dict.get\<close> nor the attribute access raises KeyError, so the handler is never
  entered and an AttributeError passes through it.
\<close>

definition param_type_str :: "(string \<times> py_type) list \<Rightarrow> string \<Rightarrow> py_error + string" where
  "param_type_str type_hints param_name =
     (let param_type = (case map_of type_hints param_name of None \<Rightarrow> T_Any | Some t \<Rightarrow> t) in
      case type_name param_type of
        Inl e \<Rightarrow> Inl e
      | Inr nm \<Rightarrow>
          (let s = (case type_map param_type of None \<Rightarrow> nm | Some m \<Rightarrow> m)
           in Inr (if s = ''Any'' then ''string'' else s)))"

text \<open>
  \<^verbatim>\<open>
      param_info = {"type": param_type_str}
      if arg_descriptions and param_name in arg_descriptions:
          param_info["description"] = arg_descriptions[param_name]
  \<close>
  An empty dictionary has no key, so the test is the presence of the key.
\<close>

definition param_info :: "(string \<times> string) list \<Rightarrow> string \<Rightarrow> string \<Rightarrow> json" where
  "param_info arg_descs param_name type_str =
     JObj ((''type'', JStr type_str) #
           (case map_of arg_descs param_name of
              None \<Rightarrow> []
            | Some d \<Rightarrow> [(''description'', JStr d)]))"

text \<open>
  The loop over \<^verbatim>\<open>signature.parameters\<close>, with the dictionary \<open>parameters\<close> and the list
  \<open>required\<close> that it builds.
\<close>

fun build_parameters ::
  "(string \<times> py_type) list \<Rightarrow> (string \<times> string) list \<Rightarrow> param list \<Rightarrow>
   (string \<times> json) list \<Rightarrow> string list \<Rightarrow> py_error + ((string \<times> json) list \<times> string list)" where
  "build_parameters type_hints arg_descs [] parameters required = Inr (parameters, required)"
| "build_parameters type_hints arg_descs (p # ps) parameters required =
     (case param_type_str type_hints (p_name p) of
        Inl e \<Rightarrow> Inl e
      | Inr type_str \<Rightarrow>
          build_parameters type_hints arg_descs ps
            (AList.update (p_name p) (param_info arg_descs (p_name p) type_str) parameters)
            (if p_default p = None then required @ [p_name p] else required))"

definition schema ::
  "string \<Rightarrow> string \<Rightarrow> (string \<times> json) list \<Rightarrow> string list \<Rightarrow> json" where
  "schema name descr parameters required =
     JObj [(''type'', JStr ''function''),
           (''function'', JObj
              [(''name'', JStr name),
               (''description'', JStr descr),
               (''parameters'', JObj
                  [(''type'', JStr ''object''),
                   (''properties'', JObj parameters),
                   (''required'', JList (map JStr required))])])]"

definition function_to_json :: "callable \<Rightarrow> py_error + json" where
  "function_to_json func =
     (case c_signature func of
        Inl cause \<Rightarrow>
          Inl (ValueError (''Failed to get signature for function '' @ c_name func @ '': '' @ cause))
      | Inr params \<Rightarrow>
          (let docstring = (case c_doc func of None \<Rightarrow> [] | Some d \<Rightarrow> d);
               (descr, arg_descs) = parse_docstring docstring
           in case get_type_hints (c_annotations func) of
                Inl e \<Rightarrow> Inl e
              | Inr type_hints \<Rightarrow>
                  (case build_parameters type_hints arg_descs params [] [] of
                     Inl e \<Rightarrow> Inl e
                   | Inr (parameters, required) \<Rightarrow>
                       Inr (schema (c_name func) descr parameters required))))"

section \<open>Reading a schema, and concrete inputs\<close>

text \<open>The value under a path of keys in nested dictionaries.\<close>

fun lookup_path :: "json \<Rightarrow> string list \<Rightarrow> json option" where
  "lookup_path v [] = Some v"
| "lookup_path (JObj kvs) (k # ks) =
     (case map_of kvs k of None \<Rightarrow> None | Some v \<Rightarrow> lookup_path v ks)"
| "lookup_path _ (k # ks) = None"

text \<open>The accumulator and the delta of the merge scenario.\<close>

definition scenario_accumulator :: json where
  "scenario_accumulator =
     JObj [(''content'', JStr ''Hel''), (''tool_calls'', JList [JObj [(''name'', JStr '''')]])]"

definition scenario_delta :: "(string \<times> json) list" where
  "scenario_delta =
     [(''content'', JStr ''lo''),
      (''tool_calls'', JList [JObj [(''index'', JInt 0), (''name'', JStr ''add'')]])]"

text \<open>
  The NameError that the evaluation of a forward reference to an undefined name raises, a
  function whose only parameter has such an annotation, and a callable for which
  \<^verbatim>\<open>inspect.signature\<close> raises ValueError.
\<close>

definition name_error :: "string \<Rightarrow> py_error" where
  "name_error ident = NameError (''name '' @ [CHR 0x27] @ ident @ [CHR 0x27] @ '' is not defined'')"

definition forward_ref_callable :: callable where
  "forward_ref_callable =
     \<lparr>c_name = ''lookup'',
      c_signature = Inr [\<lparr>p_name = ''key'', p_default = None\<rparr>],
      c_doc = None,
      c_annotations = [(''key'', Unresolvable (name_error ''Foo''))]\<rparr>"

definition opaque_callable :: callable where
  "opaque_callable =
     \<lparr>c_name = ''getattr'',
      c_signature = Inl ''no signature found'',
      c_doc = None,
      c_annotations = []\<rparr>"

text \<open>
  A function \<^verbatim>\<open>add(a: int, b=1, c) -> int\<close> with an \<^verbatim>\<open>Args:\<close> section in its docstring.
\<close>

definition add_callable :: callable where
  "add_callable =
     \<lparr>c_name = ''add'',
      c_signature = Inr [\<lparr>p_name = ''a'', p_default = None\<rparr>,
                         \<lparr>p_name = ''b'', p_default = Some (JInt 1)\<rparr>,
                         \<lparr>p_name = ''c'', p_default = None\<rparr>],
      c_doc = Some ''Adds.\<newline>\<newline>Args:\<newline>    a: first\<newline>    b: second'',
      c_annotations = [(''a'', Resolved T_int), (''return'', Resolved T_int)]\<rparr>"

text \<open>
  Two functions whose parameter \<^verbatim>\<open>x\<close> has no annotation: \<^verbatim>\<open>ret_forward(x) -> "Foo"\<close>
  with \<^verbatim>\<open>Foo\<close> undefined, and \<^verbatim>\<open>pipe2(x, y: int | str)\<close>, where the union object that
  annotates \<^verbatim>\<open>y\<close> has no \<^verbatim>\<open>__name__\<close>.
\<close>

definition ret_forward_callable :: callable where
  "ret_forward_callable =
     \<lparr>c_name = ''ret_forward'',
      c_signature = Inr [\<lparr>p_name = ''x'', p_default = None\<rparr>],
      c_doc = None,
      c_annotations = [(''return'', Unresolvable (name_error ''Foo''))]\<rparr>"

definition union_callable :: callable where
  "union_callable =
     \<lparr>c_name = ''pipe2'',
      c_signature = Inr [\<lparr>p_name = ''x'', p_default = None\<rparr>,
                         \<lparr>p_name = ''y'', p_default = None\<rparr>],
      c_doc = None,
      c_annotations = [(''y'', Resolved (T_other None))]\<rparr>"

section \<open>The keys of an accumulator\<close>

text \<open>
  Every dictionary inside a value, named by the path of keys and list positions that leads to
  it from the root, with the list of its keys.
\<close>

datatype step = Key string | Index nat

fun key_paths :: "json \<Rightarrow> (step list \<times> string list) list"
  and key_paths_items :: "(string \<times> json) list \<Rightarrow> (step list \<times> string list) list"
  and key_paths_list :: "nat \<Rightarrow> json list \<Rightarrow> (step list \<times> string list) list" where
  "key_paths (JObj kvs) = ([], map fst kvs) # key_paths_items kvs"
| "key_paths (JList xs) = key_paths_list 0 xs"
| "key_paths _ = []"
| "key_paths_items [] = []"
| "key_paths_items ((k, v) # kvs) =
     map (\<lambda>(path, ks). (Key k # path, ks)) (key_paths v) @ key_paths_items kvs"
| "key_paths_list i [] = []"
| "key_paths_list i (x # xs) =
     map (\<lambda>(path, ks). (Index i # path, ks)) (key_paths x) @ key_paths_list (Suc i) xs"

text \<open>A delta with a \<^verbatim>\<open>role\<close>, a number and a tool-call fragment.\<close>

definition role_delta :: "(string \<times> json) list" where
  "role_delta =
     [(''role'', JStr ''assistant''),
      (''content'', JStr ''lo''),
      (''usage'', JInt 5),
      (''tool_calls'', JList [JObj [(''index'', JInt 0), (''name'', JStr ''add'')]])]"

section \<open>Properties\<close>

subsection \<open>The merge scenario\<close>

text \<open>
  Claim C2. Merging the delta \<^verbatim>\<open>{"content": "lo", "tool_calls": [{"index": 0, "name": "add"}]}\<close>
  into the accumulator \<^verbatim>\<open>{"content": "Hel", "tool_calls": [{"name": ""}]}\<close> raises nothing and
  leaves the accumulator equal to \<^verbatim>\<open>{"content": "Hello", "tool_calls": [{"name": "add"}]}\<close>:
  the string field is appended to, the \<^verbatim>\<open>index\<close> of the first tool-call fragment is
  consumed and addresses position 0 of the accumulator's list, and the remaining field of the
  fragment is merged into that element.
\<close>

theorem merge_chunk_scenario:
  "merge_chunk scenario_accumulator scenario_delta =
     (JObj [(''content'', JStr ''Hello''), (''tool_calls'', JList [JObj [(''name'', JStr ''add'')]])],
      [(''content'', JStr ''lo''), (''tool_calls'', JList [JObj [(''name'', JStr ''add'')]])],
      None)"
  by (simp add: merge_chunk_def scenario_accumulator_def scenario_delta_def seq_pos_def)

subsection \<open>Errors of the schema builder\<close>

lemma get_type_hints_unresolvable:
  "(n, Unresolvable e) \<in> set anns \<Longrightarrow> \<exists>e'. get_type_hints anns = Inl e'"
  by (induction anns rule: get_type_hints.induct) (auto split: sum.splits)

lemma get_type_hints_map_of:
  "get_type_hints anns = Inr hints \<Longrightarrow> map_of anns n = None \<Longrightarrow> map_of hints n = None"
  by (induction anns arbitrary: hints rule: get_type_hints.induct) (auto split: sum.splits if_splits)

text \<open>
  Claim C7. When \<^verbatim>\<open>inspect.signature\<close> raises ValueError, \<^verbatim>\<open>function_to_json\<close> returns
  no schema: it raises a ValueError whose message contains the name of the callable and the
  text of the underlying error.
\<close>

theorem signature_error:
  "c_signature func = Inl cause \<Longrightarrow>
     function_to_json func =
       Inl (ValueError (''Failed to get signature for function '' @ c_name func @ '': '' @ cause))
     \<and> sublist (c_name func) (''Failed to get signature for function '' @ c_name func @ '': '' @ cause)
     \<and> sublist cause (''Failed to get signature for function '' @ c_name func @ '': '' @ cause)"
proof -
  assume sig: "c_signature func = Inl cause"
  have a: "sublist (c_name func)
             (''Failed to get signature for function '' @ c_name func @ '': '' @ cause)"
    by (rule sublist_appendI)
  have b: "sublist cause
             ((''Failed to get signature for function '' @ c_name func @ '': '') @ cause @ [])"
    by (rule sublist_appendI)
  from sig a b show ?thesis by (simp add: function_to_json_def)
qed

theorem signature_error_witness:
  "c_signature opaque_callable = Inl ''no signature found'' \<and>
   function_to_json opaque_callable =
     Inl (ValueError ''Failed to get signature for function getattr: no signature found'')"
proof -
  have h: "c_signature opaque_callable = Inl ''no signature found''"
    by (simp add: opaque_callable_def)
  from signature_error [OF h] have
    "function_to_json opaque_callable =
       Inl (ValueError (''Failed to get signature for function '' @ c_name opaque_callable @ '': '' @ ''no signature found''))"
    by blast
  with h show ?thesis by (simp add: opaque_callable_def)
qed

text \<open>
  Claim C6, as stated, fails. For a function \<^verbatim>\<open>lookup(key: "Foo")\<close> with \<^verbatim>\<open>Foo\<close>
  undefined, the NameError of \<^verbatim>\<open>get_type_hints\<close> leaves \<^verbatim>\<open>function_to_json\<close> as it
  was raised: its message \<^verbatim>\<open>name 'Foo' is not defined\<close> names neither the parameter
  \<^verbatim>\<open>key\<close> nor the callable \<^verbatim>\<open>lookup\<close>.
\<close>

theorem annotation_error_counterexample:
  "function_to_json forward_ref_callable =
     Inl (NameError (''name '' @ [CHR 0x27] @ ''Foo'' @ [CHR 0x27] @ '' is not defined''))
   \<and> \<not> sublist ''key'' (''name '' @ [CHR 0x27] @ ''Foo'' @ [CHR 0x27] @ '' is not defined'')
   \<and> \<not> sublist ''lookup'' (''name '' @ [CHR 0x27] @ ''Foo'' @ [CHR 0x27] @ '' is not defined'')"
proof -
  have a: "function_to_json forward_ref_callable =
     Inl (NameError (''name '' @ [CHR 0x27] @ ''Foo'' @ [CHR 0x27] @ '' is not defined''))"
    by (simp add: function_to_json_def forward_ref_callable_def name_error_def
          parse_docstring_def Let_def)
  have b: "\<not> sublist ''key'' (''name '' @ [CHR 0x27] @ ''Foo'' @ [CHR 0x27] @ '' is not defined'')"
    by (simp add: sublist_Cons_right)
  have c: "\<not> sublist ''lookup'' (''name '' @ [CHR 0x27] @ ''Foo'' @ [CHR 0x27] @ '' is not defined'')"
    by (simp add: sublist_Cons_right)
  from a b c show ?thesis by blast
qed

text \<open>
  Claim C6, amended. For every callable that has a parameter whose annotation is present
  but cannot be resolved, \<^verbatim>\<open>function_to_json\<close> fails with an error and produces no schema.
\<close>

theorem unresolvable_annotation_fails:
  "c_signature func = Inr params \<Longrightarrow> p \<in> set params \<Longrightarrow>
   map_of (c_annotations func) (p_name p) = Some (Unresolvable e) \<Longrightarrow>
   \<exists>e'. function_to_json func = Inl e'"
proof -
  assume sig: "c_signature func = Inr params"
    and ann: "map_of (c_annotations func) (p_name p) = Some (Unresolvable e)"
  from ann have "(p_name p, Unresolvable e) \<in> set (c_annotations func)"
    by (rule map_of_SomeD)
  then obtain e' where "get_type_hints (c_annotations func) = Inl e'"
    using get_type_hints_unresolvable by blast
  with sig show ?thesis
    by (simp add: function_to_json_def Let_def split: prod.splits)
qed

theorem unresolvable_annotation_fails_witness:
  "c_signature forward_ref_callable = Inr [\<lparr>p_name = ''key'', p_default = None\<rparr>] \<and>
   map_of (c_annotations forward_ref_callable) ''key'' = Some (Unresolvable (name_error ''Foo'')) \<and>
   (\<exists>e'. function_to_json forward_ref_callable = Inl e')"
proof -
  have h1: "c_signature forward_ref_callable = Inr [\<lparr>p_name = ''key'', p_default = None\<rparr>]"
    by (simp add: forward_ref_callable_def)
  have h2: "\<lparr>p_name = ''key'', p_default = None\<rparr> \<in> set [\<lparr>p_name = ''key'', p_default = None\<rparr>]"
    by simp
  have h3: "map_of (c_annotations forward_ref_callable) (p_name \<lparr>p_name = ''key'', p_default = None\<rparr>)
              = Some (Unresolvable (name_error ''Foo''))"
    by (simp add: forward_ref_callable_def)
  from unresolvable_annotation_fails [OF h1 h2 h3] h1 h3 show ?thesis by simp
qed

subsection \<open>The schema of a callable\<close>

lemma param_type_str_unannotated:
  "map_of type_hints n = None \<Longrightarrow> param_type_str type_hints n = Inr ''string''"
  by (simp add: param_type_str_def)

lemma build_parameters_required:
  "build_parameters th ad ps parameters required = Inr (parameters', required') \<Longrightarrow>
   required' = required @ map p_name (filter (\<lambda>p. p_default p = None) ps)"
proof (induction ps arbitrary: parameters required)
  case Nil
  then show ?case by simp
next
  case (Cons p ps)
  from Cons.prems obtain ts where
    rec: "build_parameters th ad ps
            (AList.update (p_name p) (param_info ad (p_name p) ts) parameters)
            (if p_default p = None then required @ [p_name p] else required)
          = Inr (parameters', required')"
    by (auto split: sum.splits)
  from Cons.IH [OF rec] show ?case by simp
qed

lemma build_parameters_keys:
  "build_parameters th ad ps parameters required = Inr (parameters', required') \<Longrightarrow>
   fst ` set parameters' = fst ` set parameters \<union> p_name ` set ps"
proof (induction ps arbitrary: parameters required)
  case Nil
  then show ?case by simp
next
  case (Cons p ps)
  from Cons.prems obtain ts where
    rec: "build_parameters th ad ps
            (AList.update (p_name p) (param_info ad (p_name p) ts) parameters)
            (if p_default p = None then required @ [p_name p] else required)
          = Inr (parameters', required')"
    by (auto split: sum.splits)
  from Cons.IH [OF rec] show ?case
    by (simp add: dom_update insert_commute Un_commute)
qed

lemma build_parameters_order:
  "build_parameters th ad ps parameters required = Inr (parameters', required') \<Longrightarrow>
   distinct (map fst parameters @ map p_name ps) \<Longrightarrow>
   map fst parameters' = map fst parameters @ map p_name ps"
proof (induction ps arbitrary: parameters required)
  case Nil
  then show ?case by simp
next
  case (Cons p ps)
  from Cons.prems(1) obtain ts where
    rec: "build_parameters th ad ps
            (AList.update (p_name p) (param_info ad (p_name p) ts) parameters)
            (if p_default p = None then required @ [p_name p] else required)
          = Inr (parameters', required')"
    by (auto split: sum.splits)
  from Cons.prems(2) have fresh: "p_name p \<notin> fst ` set parameters"
    by auto
  then have upd: "map fst (AList.update (p_name p) (param_info ad (p_name p) ts) parameters)
                    = map fst parameters @ [p_name p]"
    by (simp add: update_keys)
  from Cons.prems(2) have "distinct (map fst (AList.update (p_name p) (param_info ad (p_name p) ts) parameters) @ map p_name ps)"
    by (simp add: upd)
  from Cons.IH [OF rec this] show ?case by (simp add: upd)
qed

lemma build_parameters_entry:
  "build_parameters th ad ps parameters required = Inr (parameters', required') \<Longrightarrow>
   p \<in> set ps \<Longrightarrow>
   \<exists>ts. param_type_str th (p_name p) = Inr ts \<and>
        map_of parameters' (p_name p) = Some (param_info ad (p_name p) ts)"
proof -
  have keep: "build_parameters th ad ps parameters required = Inr (parameters', required') \<Longrightarrow>
              map_of parameters n = Some (param_info ad n ts) \<Longrightarrow>
              param_type_str th n = Inr ts \<Longrightarrow>
              map_of parameters' n = Some (param_info ad n ts)"
    for ps parameters required n ts
  proof (induction ps arbitrary: parameters required)
    case Nil
    then show ?case by simp
  next
    case (Cons q qs)
    from Cons.prems(1) obtain ts' where
      q: "param_type_str th (p_name q) = Inr ts'" and
      rec: "build_parameters th ad qs
              (AList.update (p_name q) (param_info ad (p_name q) ts') parameters)
              (if p_default q = None then required @ [p_name q] else required)
            = Inr (parameters', required')"
      by (auto split: sum.splits)
    have "map_of (AList.update (p_name q) (param_info ad (p_name q) ts') parameters) n
            = Some (param_info ad n ts)"
      using Cons.prems(2,3) q by (auto simp: update_conv')
    from Cons.IH [OF rec this Cons.prems(3)] show ?case .
  qed
  show "build_parameters th ad ps parameters required = Inr (parameters', required') \<Longrightarrow>
        p \<in> set ps \<Longrightarrow> ?thesis"
  proof (induction ps arbitrary: parameters required)
    case Nil
    then show ?case by simp
  next
    case (Cons q qs)
    from Cons.prems(1) obtain ts' where
      q: "param_type_str th (p_name q) = Inr ts'" and
      rec: "build_parameters th ad qs
              (AList.update (p_name q) (param_info ad (p_name q) ts') parameters)
              (if p_default q = None then required @ [p_name q] else required)
            = Inr (parameters', required')"
      by (auto split: sum.splits)
    show ?case
    proof (cases "p = q")
      case True
      have "map_of (AList.update (p_name q) (param_info ad (p_name q) ts') parameters) (p_name q)
              = Some (param_info ad (p_name q) ts')"
        by (simp add: update_conv')
      from keep [OF rec this q] q True show ?thesis by simp
    next
      case False
      with Cons.prems(2) have "p \<in> set qs" by simp
      from Cons.IH [OF rec this] show ?thesis .
    qed
  qed
qed

lemma function_to_json_schema:
  "c_signature func = Inr params \<Longrightarrow> function_to_json func = Inr s \<Longrightarrow>
   \<exists>th descr ad parameters required.
      get_type_hints (c_annotations func) = Inr th \<and>
      build_parameters th ad params [] [] = Inr (parameters, required) \<and>
      s = schema (c_name func) descr parameters required"
  by (auto simp: function_to_json_def Let_def split: prod.splits sum.splits)

lemma lookup_required:
  "lookup_path (schema n d ps r) [''function'', ''parameters'', ''required''] = Some (JList (map JStr r))"
  by (simp add: schema_def)

lemma lookup_properties:
  "lookup_path (schema n d ps r) [''function'', ''parameters'', ''properties''] = Some (JObj ps)"
  by (simp add: schema_def)

lemma lookup_property:
  "lookup_path (schema n d ps r) [''function'', ''parameters'', ''properties'', k]
     = map_of ps k"
  by (simp add: schema_def split: option.splits)


lemma build_parameters_succeeds:
  "\<forall>p\<in>set ps. \<exists>ts. param_type_str th (p_name p) = Inr ts \<Longrightarrow>
   \<exists>r. build_parameters th ad ps parameters required = Inr r"
  by (induction ps arbitrary: parameters required) auto

lemma param_type_str_named:
  "map_of th n = Some t \<Longrightarrow> type_name t = Inr nm \<Longrightarrow> \<exists>ts. param_type_str th n = Inr ts"
  by (simp add: param_type_str_def Let_def)

lemma function_to_json_succeeds:
  "c_signature func = Inr params \<Longrightarrow> get_type_hints (c_annotations func) = Inr th \<Longrightarrow>
   \<forall>p\<in>set params. \<exists>ts. param_type_str th (p_name p) = Inr ts \<Longrightarrow>
   \<exists>s. function_to_json func = Inr s"
proof -
  assume sig: "c_signature func = Inr params"
    and th: "get_type_hints (c_annotations func) = Inr th"
    and ok: "\<forall>p\<in>set params. \<exists>ts. param_type_str th (p_name p) = Inr ts"
  obtain descr ad where pd:
    "parse_docstring (case c_doc func of None \<Rightarrow> [] | Some d \<Rightarrow> d) = (descr, ad)"
    by (cases "parse_docstring (case c_doc func of None \<Rightarrow> [] | Some d \<Rightarrow> d)")
  from build_parameters_succeeds [OF ok, of ad "[]" "[]"] obtain parameters required where
    "build_parameters th ad params [] [] = Inr (parameters, required)"
    by auto
  with sig th pd show ?thesis
    by (simp add: function_to_json_def Let_def)
qed

lemma length_filter_complement:
  "length (filter P xs) = length xs - length (filter (\<lambda>x. \<not> P x) xs)"
  using sum_length_filter_compl [of P xs] by simp

text \<open>
  Claim C1. In every schema that \<^verbatim>\<open>function_to_json\<close> returns, the list \<^verbatim>\<open>required\<close>
  is exactly the names of the parameters without a default value, in the order of the
  signature: with N parameters of which K have a default it has N - K entries. Each of its
  names is a key of \<^verbatim>\<open>properties\<close>, whose keys are the names of all the parameters (in
  the order of the signature, the names of a signature being distinct).
\<close>

theorem required_parameters:
  "c_signature func = Inr params \<Longrightarrow> function_to_json func = Inr s \<Longrightarrow>
   \<exists>props required.
     lookup_path s [''function'', ''parameters'', ''properties''] = Some (JObj props) \<and>
     lookup_path s [''function'', ''parameters'', ''required''] = Some (JList (map JStr required)) \<and>
     required = map p_name (filter (\<lambda>p. p_default p = None) params) \<and>
     length required = length params - length (filter (\<lambda>p. p_default p \<noteq> None) params) \<and>
     set required \<subseteq> fst ` set props \<and>
     fst ` set props = p_name ` set params \<and>
     (distinct (map p_name params) \<longrightarrow> map fst props = map p_name params)"
proof -
  assume sig: "c_signature func = Inr params" and res: "function_to_json func = Inr s"
  from function_to_json_schema [OF sig res] obtain th descr ad props required where
    build: "build_parameters th ad params [] [] = Inr (props, required)" and
    s: "s = schema (c_name func) descr props required"
    by blast
  have req: "required = map p_name (filter (\<lambda>p. p_default p = None) params)"
    using build_parameters_required [OF build] by simp
  have keys: "fst ` set props = p_name ` set params"
    using build_parameters_keys [OF build] by simp
  have len: "length required = length params - length (filter (\<lambda>p. p_default p \<noteq> None) params)"
    using length_filter_complement [of "\<lambda>p. p_default p = None" params] by (simp add: req)
  have sub: "set required \<subseteq> fst ` set props"
    unfolding keys req by auto
  have ord: "distinct (map p_name params) \<longrightarrow> map fst props = map p_name params"
    using build_parameters_order [OF build] by simp
  from req keys len sub ord show ?thesis
    unfolding s lookup_required lookup_properties by blast
qed

theorem required_parameters_witness:
  "c_signature add_callable =
     Inr [\<lparr>p_name = ''a'', p_default = None\<rparr>,
          \<lparr>p_name = ''b'', p_default = Some (JInt 1)\<rparr>,
          \<lparr>p_name = ''c'', p_default = None\<rparr>] \<and>
   (\<exists>s. function_to_json add_callable = Inr s \<and>
        lookup_path s [''function'', ''parameters'', ''required'']
          = Some (JList [JStr ''a'', JStr ''c'']))"
proof -
  have h1: "c_signature add_callable =
     Inr [\<lparr>p_name = ''a'', p_default = None\<rparr>,
          \<lparr>p_name = ''b'', p_default = Some (JInt 1)\<rparr>,
          \<lparr>p_name = ''c'', p_default = None\<rparr>]"
    by (simp add: add_callable_def)
  have "\<exists>s. function_to_json add_callable = Inr s"
    by (simp add: function_to_json_def add_callable_def param_type_str_def Let_def
          split: prod.splits)
  then obtain s where h2: "function_to_json add_callable = Inr s" ..
  from required_parameters [OF h1 h2] have
    "lookup_path s [''function'', ''parameters'', ''required'']
       = Some (JList [JStr ''a'', JStr ''c''])"
    by auto
  with h1 h2 show ?thesis by blast
qed

text \<open>
  Claim C8, as stated, fails: a callable with a parameter that has no annotation can still
  make \<^verbatim>\<open>function_to_json\<close> raise. For \<^verbatim>\<open>ret_forward(x) -> "Foo"\<close> the resolution of the
  annotation of the result raises NameError, and for \<^verbatim>\<open>pipe2(x, y: int | str)\<close> the type of
  \<^verbatim>\<open>y\<close> has no \<^verbatim>\<open>__name__\<close>; in both \<^verbatim>\<open>x\<close> has no annotation.
\<close>

theorem unannotated_parameter_counterexample:
  "c_signature ret_forward_callable = Inr [\<lparr>p_name = ''x'', p_default = None\<rparr>] \<and>
   map_of (c_annotations ret_forward_callable) ''x'' = None \<and>
   function_to_json ret_forward_callable = Inl (name_error ''Foo'') \<and>
   c_signature union_callable =
     Inr [\<lparr>p_name = ''x'', p_default = None\<rparr>, \<lparr>p_name = ''y'', p_default = None\<rparr>] \<and>
   map_of (c_annotations union_callable) ''x'' = None \<and>
   function_to_json union_callable = Inl AttributeError"
  by (simp add: function_to_json_def ret_forward_callable_def union_callable_def
        param_type_str_def parse_docstring_def Let_def)

text \<open>
  Claim C8, amended. For every callable whose signature is obtained and every parameter of
  it that has no type annotation: the type lookup of the loop for that parameter returns
  \<^verbatim>\<open>"string"\<close> and does not raise; in every schema that \<^verbatim>\<open>function_to_json\<close> returns, the
  entry of that parameter in \<^verbatim>\<open>properties\<close> has the type \<^verbatim>\<open>"string"\<close>; and
  \<^verbatim>\<open>function_to_json\<close> returns a schema, raising nothing, whenever the annotations of the
  callable all resolve and the resolved type of every annotated parameter has a
  \<^verbatim>\<open>__name__\<close>.
\<close>

theorem unannotated_parameter_is_string:
  "c_signature func = Inr params \<Longrightarrow> p \<in> set params \<Longrightarrow>
   map_of (c_annotations func) (p_name p) = None \<Longrightarrow>
     (\<forall>th. get_type_hints (c_annotations func) = Inr th \<longrightarrow>
           param_type_str th (p_name p) = Inr ''string'') \<and>
     (\<forall>s. function_to_json func = Inr s \<longrightarrow>
          (\<exists>info. lookup_path s [''function'', ''parameters'', ''properties'', p_name p]
                    = Some (JObj info) \<and>
                  map_of info ''type'' = Some (JStr ''string''))) \<and>
     (\<forall>th. get_type_hints (c_annotations func) = Inr th \<longrightarrow>
           (\<forall>q\<in>set params. \<forall>t. map_of th (p_name q) = Some t \<longrightarrow> (\<exists>nm. type_name t = Inr nm)) \<longrightarrow>
           (\<exists>s. function_to_json func = Inr s))"
proof -
  assume sig: "c_signature func = Inr params" and p: "p \<in> set params"
    and ann: "map_of (c_annotations func) (p_name p) = None"
  have a: "\<forall>th. get_type_hints (c_annotations func) = Inr th \<longrightarrow>
             param_type_str th (p_name p) = Inr ''string''"
    using ann by (simp add: get_type_hints_map_of param_type_str_unannotated)
  have b: "\<exists>info. lookup_path s [''function'', ''parameters'', ''properties'', p_name p]
                    = Some (JObj info) \<and>
                  map_of info ''type'' = Some (JStr ''string'')"
    if res: "function_to_json func = Inr s" for s
  proof -
    from function_to_json_schema [OF sig res] obtain th descr ad props required where
      th: "get_type_hints (c_annotations func) = Inr th" and
      build: "build_parameters th ad params [] [] = Inr (props, required)" and
      s: "s = schema (c_name func) descr props required"
      by blast
    from build_parameters_entry [OF build p] obtain ts where
      ts: "param_type_str th (p_name p) = Inr ts" and
      entry: "map_of props (p_name p) = Some (param_info ad (p_name p) ts)"
      by blast
    from ts a th have "ts = ''string''" by simp
    with entry show ?thesis
      unfolding s lookup_property by (simp add: param_info_def)
  qed
  have c: "\<exists>s. function_to_json func = Inr s"
    if th: "get_type_hints (c_annotations func) = Inr th"
      and named: "\<forall>q\<in>set params. \<forall>t. map_of th (p_name q) = Some t \<longrightarrow> (\<exists>nm. type_name t = Inr nm)"
    for th
  proof -
    have "\<exists>ts. param_type_str th (p_name q) = Inr ts" if q: "q \<in> set params" for q
    proof (cases "map_of th (p_name q)")
      case None
      then show ?thesis by (simp add: param_type_str_unannotated)
    next
      case (Some t)
      with named q obtain nm where "type_name t = Inr nm" by blast
      with Some show ?thesis by (rule param_type_str_named)
    qed
    then have "\<forall>q\<in>set params. \<exists>ts. param_type_str th (p_name q) = Inr ts" by blast
    from function_to_json_succeeds [OF sig th this] show ?thesis .
  qed
  from a b c show ?thesis by blast
qed

theorem unannotated_parameter_is_string_witness:
  "c_signature add_callable =
     Inr [\<lparr>p_name = ''a'', p_default = None\<rparr>,
          \<lparr>p_name = ''b'', p_default = Some (JInt 1)\<rparr>,
          \<lparr>p_name = ''c'', p_default = None\<rparr>] \<and>
   map_of (c_annotations add_callable) ''c'' = None \<and>
   get_type_hints (c_annotations add_callable) = Inr [(''a'', T_int), (''return'', T_int)] \<and>
   (\<exists>s info. function_to_json add_callable = Inr s \<and>
      lookup_path s [''function'', ''parameters'', ''properties'', ''c''] = Some (JObj info) \<and>
      map_of info ''type'' = Some (JStr ''string''))"
proof -
  have h1: "c_signature add_callable =
     Inr [\<lparr>p_name = ''a'', p_default = None\<rparr>,
          \<lparr>p_name = ''b'', p_default = Some (JInt 1)\<rparr>,
          \<lparr>p_name = ''c'', p_default = None\<rparr>]"
    by (simp add: add_callable_def)
  have h2: "\<lparr>p_name = ''c'', p_default = None\<rparr> \<in>
              set [\<lparr>p_name = ''a'', p_default = None\<rparr>,
                   \<lparr>p_name = ''b'', p_default = Some (JInt 1)\<rparr>,
                   \<lparr>p_name = ''c'', p_default = None\<rparr>]"
    by simp
  have h3: "map_of (c_annotations add_callable) (p_name \<lparr>p_name = ''c'', p_default = None\<rparr>) = None"
    by (simp add: add_callable_def)
  have h4: "get_type_hints (c_annotations add_callable) = Inr [(''a'', T_int), (''return'', T_int)]"
    by (simp add: add_callable_def)
  have h5: "\<forall>q\<in>set [\<lparr>p_name = ''a'', p_default = None\<rparr>,
                     \<lparr>p_name = ''b'', p_default = Some (JInt 1)\<rparr>,
                     \<lparr>p_name = ''c'', p_default = None\<rparr>].
              \<forall>t. map_of [(''a'', T_int), (''return'', T_int)] (p_name q) = Some t \<longrightarrow>
                  (\<exists>nm. type_name t = Inr nm)"
    by simp
  note inst = unannotated_parameter_is_string [OF h1 h2 h3]
  from inst h4 h5 obtain s where s: "function_to_json add_callable = Inr s"
    by blast
  from inst s have
    "\<exists>info. lookup_path s [''function'', ''parameters'', ''properties'', ''c'']
               = Some (JObj info) \<and> map_of info ''type'' = Some (JStr ''string'')"
    by simp
  with h1 h3 h4 s show ?thesis by auto
qed

subsection \<open>What the generic merge leaves alone\<close>




subsection \<open>No key is ever added\<close>

lemma key_paths_items_update:
  "map_of kvs k = Some v \<Longrightarrow> key_paths v' = key_paths v \<Longrightarrow>
   key_paths_items (AList.update k v' kvs) = key_paths_items kvs"
  by (induction kvs) auto

lemma keys_update_present:
  "map_of kvs k = Some v \<Longrightarrow> map fst (AList.update k v' kvs) = map fst kvs"
  by (induction kvs) auto

lemma key_paths_list_update:
  "j < length xs \<Longrightarrow> key_paths v' = key_paths (xs ! j) \<Longrightarrow>
   key_paths_list i (xs[j := v']) = key_paths_list i xs"
  by (induction xs arbitrary: i j) (auto simp: nth_Cons' split: nat.splits)

lemma key_paths_list_chars:
  "key_paths_list i (xs @ map (\<lambda>c. JStr [c]) s) = key_paths_list i xs"
proof (induction xs arbitrary: i)
  case Nil
  show ?case by (induction s arbitrary: i) auto
next
  case (Cons x xs)
  then show ?case by simp
qed

lemma seq_pos_less: "seq_pos n i = Some j \<Longrightarrow> j < n"
  by (auto simp: seq_pos_def Let_def split: if_splits)

lemma key_paths_store_back:
  "getitem t k = Inr cur \<Longrightarrow> key_paths v = key_paths cur \<Longrightarrow>
   key_paths (store_back t k v) = key_paths t"
proof (cases t)
  case (JObj kvs)
  assume g: "getitem t k = Inr cur" and kp: "key_paths v = key_paths cur"
  from g JObj obtain s where k: "k = JStr s" and m: "map_of kvs s = Some cur"
    by (cases k) (auto split: option.splits)
  from m kp show ?thesis
    by (simp add: JObj k key_paths_items_update keys_update_present)
next
  case (JList xs)
  assume g: "getitem t k = Inr cur" and kp: "key_paths v = key_paths cur"
  from g JList obtain i j where i: "as_index k = Some i" and j: "seq_pos (length xs) i = Some j"
    and cur: "cur = xs ! j"
    by (auto split: option.splits)
  from seq_pos_less [OF j] kp cur show ?thesis
    by (simp add: JList i j key_paths_list_update)
qed (cases k; simp)+

lemma key_paths_iadd_str:
  "iadd_str cur s = Inr new \<Longrightarrow> key_paths new = key_paths cur"
  by (cases cur) (auto simp: key_paths_list_chars)

lemma key_paths_merge_fields:
  "key_paths (fst (merge_fields target source)) = key_paths target"
proof (induction target source rule: merge_fields.induct)
  case (1 target)
  then show ?case by simp
next
  case (2 target key val rest)
  show ?case
  proof (cases val)
    case (JStr s)
    show ?thesis
    proof (cases "getitem target (JStr key)")
      case (Inl e)
      with JStr show ?thesis by simp
    next
      case (Inr cur)
      show ?thesis
      proof (cases "iadd_str cur s")
        case (Inl e)
        with JStr Inr show ?thesis by simp
      next
        case new: (Inr new)
        from "2.IH"(5) [OF JStr Inr new] JStr Inr new show ?thesis
          by (simp add: key_paths_store_back [OF Inr] key_paths_iadd_str [OF new])
      qed
    qed
  next
    case (JObj src)
    show ?thesis
    proof (cases "getitem target (JStr key)")
      case (Inl e)
      with JObj show ?thesis by simp
    next
      case (Inr sub)
      obtain sub' err where m: "merge_fields sub src = (sub', err)"
        by (cases "merge_fields sub src")
      from "2.IH"(7) [OF JObj Inr] m have sub: "key_paths sub' = key_paths sub"
        by simp
      show ?thesis
      proof (cases err)
        case None
        from "2.IH"(8) [OF JObj Inr m [symmetric] None] JObj Inr m None show ?thesis
          by (simp add: key_paths_store_back [OF Inr sub])
      next
        case (Some e)
        with JObj Inr m show ?thesis
          by (simp add: key_paths_store_back [OF Inr sub])
      qed
    qed
  qed (use "2.IH" in simp_all)
qed

text \<open>
  Claim C10. A call of \<^verbatim>\<open>merge_chunk\<close> that completes without an exception adds no key
  to the accumulator at any nesting level: the dictionaries inside the accumulator, the
  elements of \<^verbatim>\<open>tool_calls\<close> among them, are at the same paths and have the same keys
  after the call as before.
\<close>

theorem merge_chunk_adds_no_key:
  "merge_chunk final_response delta = (final_response', delta', None) \<Longrightarrow>
   key_paths final_response' = key_paths final_response"
proof -
  assume run: "merge_chunk final_response delta = (final_response', delta', None)"
  obtain fr err where m: "merge_fields final_response (AList.delete ''role'' delta) = (fr, err)"
    by (cases "merge_fields final_response (AList.delete ''role'' delta)")
  from key_paths_merge_fields [of final_response "AList.delete ''role'' delta"] m
  have fr: "key_paths fr = key_paths final_response" by simp
  have nested: "key_paths (store_back fr (JStr ''tool_calls'') (store_back tcs index elem'))
                  = key_paths fr"
    if "getitem fr (JStr ''tool_calls'') = Inr tcs" and "getitem tcs index = Inr elem"
      and "merge_fields elem src = (elem', e)"
    for tcs index elem src elem' e
  proof -
    from key_paths_merge_fields [of elem src] that(3) have "key_paths elem' = key_paths elem"
      by simp
    with that(1,2) show ?thesis
      by (simp add: key_paths_store_back)
  qed
  from run m have "key_paths final_response' = key_paths fr"
    by (auto simp: merge_chunk_def Let_def intro: nested
          split: option.splits sum.splits if_splits prod.splits)
  with fr show ?thesis by simp
qed

theorem merge_chunk_adds_no_key_witness:
  "merge_chunk scenario_accumulator role_delta =
     (JObj [(''content'', JStr ''Hello''), (''tool_calls'', JList [JObj [(''name'', JStr ''add'')]])],
      [(''content'', JStr ''lo''), (''usage'', JInt 5),
       (''tool_calls'', JList [JObj [(''name'', JStr ''add'')]])],
      None)
   \<and> key_paths (JObj [(''content'', JStr ''Hello''),
                       (''tool_calls'', JList [JObj [(''name'', JStr ''add'')]])])
     = [([], [''content'', ''tool_calls'']), ([Key ''tool_calls'', Index 0], [''name''])]"
proof -
  have h: "merge_chunk scenario_accumulator role_delta =
     (JObj [(''content'', JStr ''Hello''), (''tool_calls'', JList [JObj [(''name'', JStr ''add'')]])],
      [(''content'', JStr ''lo''), (''usage'', JInt 5),
       (''tool_calls'', JList [JObj [(''name'', JStr ''add'')]])],
      None)"
    by (simp add: merge_chunk_def scenario_accumulator_def role_delta_def seq_pos_def)
  have k: "key_paths scenario_accumulator
             = [([], [''content'', ''tool_calls'']), ([Key ''tool_calls'', Index 0], [''name''])]"
    by (simp add: scenario_accumulator_def)
  from merge_chunk_adds_no_key [OF h] h k show ?thesis by simp
qed

subsection \<open>The effect on the delta\<close>

text \<open>
  Claim C3, as stated, fails: \<^verbatim>\<open>merge_chunk\<close> pops \<^verbatim>\<open>role\<close> from the delta and
  \<^verbatim>\<open>index\<close> from the delta's first tool-call fragment, so the delta is not the same after
  the call.
\<close>

theorem merge_chunk_changes_delta:
  "fst (snd (merge_chunk scenario_accumulator role_delta)) =
     [(''content'', JStr ''lo''), (''usage'', JInt 5),
      (''tool_calls'', JList [JObj [(''name'', JStr ''add'')]])]
   \<and> fst (snd (merge_chunk scenario_accumulator role_delta)) \<noteq> role_delta"
  by (simp add: merge_chunk_def scenario_accumulator_def role_delta_def seq_pos_def)

lemma pop_index_dict:
  "pop_index first = Inr (index, src) \<Longrightarrow>
   \<exists>tc. first = JObj tc \<and> map_of tc ''index'' = Some index \<and> src = AList.delete ''index'' tc"
  by (cases first) (auto split: option.splits)

lemma first_item_of_list:
  "getitem tool_calls (JInt 0) = Inr (JObj tc) \<Longrightarrow>
   \<exists>rest. tool_calls = JList (JObj tc # rest) \<and>
          store_back tool_calls (JInt 0) v = JList (v # rest)"
proof (cases tool_calls)
  case (JList xs)
  assume "getitem tool_calls (JInt 0) = Inr (JObj tc)"
  with JList show ?thesis
    by (cases xs) (auto simp: seq_pos_def)
next
  case (JStr s)
  assume "getitem tool_calls (JInt 0) = Inr (JObj tc)"
  with JStr show ?thesis
    by (auto simp: seq_pos_def split: if_splits)
qed auto

text \<open>
  Claim C3, amended. Besides its accumulator, \<^verbatim>\<open>merge_chunk\<close> changes the delta in two
  places only: the top-level key \<^verbatim>\<open>role\<close> is removed, and, when \<^verbatim>\<open>tool_calls\<close> is a
  list whose first element is a mapping with the key \<^verbatim>\<open>index\<close>, that key may be removed
  from that element. Everything else in the delta is as before the call.
\<close>

theorem merge_chunk_delta_effect:
  "merge_chunk final_response delta = (final_response', delta', err) \<Longrightarrow>
   delta' = AList.delete ''role'' delta \<or>
   (\<exists>tc rest. map_of delta ''tool_calls'' = Some (JList (JObj tc # rest)) \<and>
        map_of tc ''index'' \<noteq> None \<and>
        delta' = AList.update ''tool_calls'' (JList (JObj (AList.delete ''index'' tc) # rest))
                   (AList.delete ''role'' delta))"
proof -
  assume run: "merge_chunk final_response delta = (final_response', delta', err)"
  show ?thesis
  proof (cases "delta' = AList.delete ''role'' delta")
    case True
    then show ?thesis by simp
  next
    case False
    with run obtain tool_calls first index src where
      tcs: "map_of (AList.delete ''role'' delta) ''tool_calls'' = Some tool_calls" and
      first: "getitem tool_calls (JInt 0) = Inr first" and
      pop: "pop_index first = Inr (index, src)" and
      d: "delta' = AList.update ''tool_calls'' (store_back tool_calls (JInt 0) (JObj src))
                     (AList.delete ''role'' delta)"
      by (auto simp: merge_chunk_def Let_def
            split: option.splits sum.splits if_splits prod.splits)
    from pop_index_dict [OF pop] obtain tc where
      tc: "first = JObj tc" "map_of tc ''index'' = Some index" "src = AList.delete ''index'' tc"
      by blast
    from first_item_of_list [OF first [unfolded tc(1)], of "JObj src"] obtain rest where
      rest: "tool_calls = JList (JObj tc # rest)"
        "store_back tool_calls (JInt 0) (JObj src) = JList (JObj src # rest)"
      by blast
    from tcs have "map_of delta ''tool_calls'' = Some tool_calls"
      by (simp add: delete_conv')
    with rest tc d show ?thesis by auto
  qed
qed

theorem merge_chunk_delta_effect_witness:
  "merge_chunk scenario_accumulator role_delta =
     (JObj [(''content'', JStr ''Hello''), (''tool_calls'', JList [JObj [(''name'', JStr ''add'')]])],
      [(''content'', JStr ''lo''), (''usage'', JInt 5),
       (''tool_calls'', JList [JObj [(''name'', JStr ''add'')]])],
      None)
   \<and> ([(''content'', JStr ''lo''), (''usage'', JInt 5),
        (''tool_calls'', JList [JObj [(''name'', JStr ''add'')]])] = AList.delete ''role'' role_delta
      \<or> (\<exists>tc rest. map_of role_delta ''tool_calls'' = Some (JList (JObj tc # rest)) \<and>
            map_of tc ''index'' \<noteq> None \<and>
            [(''content'', JStr ''lo''), (''usage'', JInt 5),
             (''tool_calls'', JList [JObj [(''name'', JStr ''add'')]])]
              = AList.update ''tool_calls'' (JList (JObj (AList.delete ''index'' tc) # rest))
                  (AList.delete ''role'' role_delta)))"
proof -
  have h: "merge_chunk scenario_accumulator role_delta =
     (JObj [(''content'', JStr ''Hello''), (''tool_calls'', JList [JObj [(''name'', JStr ''add'')]])],
      [(''content'', JStr ''lo''), (''usage'', JInt 5),
       (''tool_calls'', JList [JObj [(''name'', JStr ''add'')]])],
      None)"
    by (simp add: merge_chunk_def scenario_accumulator_def role_delta_def seq_pos_def)
  from merge_chunk_delta_effect [OF h] h show ?thesis
    by blast
qed

subsection \<open>The docstring parser\<close>

lemma parse_line_marker:
  "startswith (lower (strip raw)) ''args:'' \<Longrightarrow>
   parse_line st raw = st\<lparr>in_args_section := True\<rparr>"
  by (simp add: parse_line_def)

lemma parse_line_description:
  "\<not> startswith (lower (strip raw)) ''args:'' \<Longrightarrow> \<not> in_args_section st \<Longrightarrow>
   parse_line st raw = st\<lparr>description := description st @ [strip raw]\<rparr>"
  by (simp add: parse_line_def)

lemma parse_line_flag:
  "\<not> startswith (lower (strip raw)) ''args:'' \<Longrightarrow>
   in_args_section (parse_line st raw) = in_args_section st"
  by (simp add: parse_line_def Let_def split: option.splits)

lemma parse_lines_flag:
  "in_args_section (parse_lines st ls) =
     (in_args_section st \<or> list_ex (\<lambda>l. startswith (lower (strip l)) ''args:'') ls)"
proof (induction ls arbitrary: st)
  case Nil
  show ?case by simp
next
  case (Cons l ls)
  show ?case
  proof (cases "startswith (lower (strip l)) ''args:''")
    case True
    then show ?thesis by (simp add: Cons.IH parse_line_marker)
  next
    case False
    then show ?thesis by (simp add: Cons.IH parse_line_flag)
  qed
qed

lemma parse_lines_no_marker:
  "\<not> in_args_section st \<Longrightarrow>
   \<forall>l\<in>set ls. \<not> startswith (lower (strip l)) ''args:'' \<Longrightarrow>
   parse_lines st ls = st\<lparr>description := description st @ map strip ls\<rparr>"
proof (induction ls arbitrary: st)
  case Nil
  show ?case by simp
next
  case (Cons l ls)
  from Cons.prems have step: "parse_line st l = st\<lparr>description := description st @ [strip l]\<rparr>"
    by (simp add: parse_line_description)
  have "\<not> in_args_section (st\<lparr>description := description st @ [strip l]\<rparr>)"
    using Cons.prems(1) by simp
  from Cons.IH [OF this] Cons.prems(2) show ?case
    by (simp add: step)
qed

lemma current_param_is_key:
  "\<forall>p. current_param st = Some p \<longrightarrow> p \<in> fst ` set (arg_descriptions st) \<Longrightarrow>
   \<forall>p. current_param (parse_line st raw) = Some p \<longrightarrow>
       p \<in> fst ` set (arg_descriptions (parse_line st raw))"
  by (auto simp: parse_line_def Let_def dom_update dom_map_entry split: option.splits)

lemma current_param_is_key_loop:
  "\<forall>p. current_param st = Some p \<longrightarrow> p \<in> fst ` set (arg_descriptions st) \<Longrightarrow>
   \<forall>p. current_param (parse_lines st ls) = Some p \<longrightarrow>
       p \<in> fst ` set (arg_descriptions (parse_lines st ls))"
proof (induction ls arbitrary: st)
  case Nil
  then show ?case by simp
next
  case (Cons l ls)
  from Cons.IH [OF current_param_is_key [OF Cons.prems]] show ?case by simp
qed

text \<open>
  Claim C4, as stated, fails. The test of the loop is
  \<^verbatim>\<open>line.lower().startswith("args:")\<close>, not an equality: the line
  \<^verbatim>\<open>Args: see below\<close>, whose trimmed lower-case form is not \<^verbatim>\<open>args:\<close>, sets the flag
  and is discarded, so that the lines after it are read as parameters.
\<close>

theorem args_marker_counterexample:
  "lower (strip ''Args: see below'') \<noteq> ''args:'' \<and>
   parse_line parse_init ''Args: see below'' = parse_init\<lparr>in_args_section := True\<rparr> \<and>
   parse_docstring ''Summary\<newline>Args: see below\<newline>x: one'' = (''Summary'', [(''x'', ''one'')])"
  by code_simp

text \<open>
  Claim C4, amended. While the in-Args-section flag is not yet set, a line sets the flag,
  and is itself discarded from all output, exactly when its trimmed, lower-case form begins
  with \<^verbatim>\<open>args:\<close>, whatever follows on the line: on such a line the loop body changes
  nothing but the flag, and any other line is appended to the description. A line that does
  not begin in that way never changes the flag, so the flag is set at the end exactly when
  some line begins in that way.
\<close>

theorem args_marker_line:
  "(\<not> in_args_section st \<and> startswith (lower (strip raw)) ''args:'' \<longrightarrow>
      parse_line st raw = st\<lparr>in_args_section := True\<rparr>) \<and>
   (\<not> startswith (lower (strip raw)) ''args:'' \<longrightarrow>
      in_args_section (parse_line st raw) = in_args_section st \<and>
      (\<not> in_args_section st \<longrightarrow> description (parse_line st raw) = description st @ [strip raw])) \<and>
   (in_args_section (parse_lines parse_init ls) \<longleftrightarrow>
      list_ex (\<lambda>l. startswith (lower (strip l)) ''args:'') ls)"
  by (simp add: parse_line_marker parse_line_flag parse_line_description parse_lines_flag
        parse_init_def)

theorem args_marker_line_witness:
  "parse_line parse_init ''  Args:  '' = parse_init\<lparr>in_args_section := True\<rparr> \<and>
   description (parse_line parse_init ''Arguments'') = [''Arguments'']"
proof -
  have a: "startswith (lower (strip ''  Args:  '')) ''args:''"
    by code_simp
  have b: "\<not> startswith (lower (strip ''Arguments'')) ''args:''"
    by code_simp
  have c: "\<not> in_args_section parse_init" "description parse_init = []"
    by (simp_all add: parse_init_def)
  have d: "strip ''Arguments'' = ''Arguments''"
    by code_simp
  from args_marker_line [of parse_init "''  Args:  ''" "[]"] a c(1)
  have first: "parse_line parse_init ''  Args:  '' = parse_init\<lparr>in_args_section := True\<rparr>"
    by blast
  from args_marker_line [of parse_init "''Arguments''" "[]"] b c(1)
  have "description (parse_line parse_init ''Arguments'') = description parse_init @ [strip ''Arguments'']"
    by blast
  with first c(2) d show ?thesis by simp
qed

text \<open>
  Claim C5, as stated, fails. Blank lines are appended to the description like any other
  line, and joining with single spaces puts two spaces around an empty entry: the summary of
  a docstring of three lines, the second one empty, has two consecutive spaces.
\<close>

theorem blank_line_counterexample:
  "split CHR ''\<newline>'' ''a\<newline>\<newline>b'' = [''a'', [], ''b''] \<and>
   parse_docstring ''a\<newline>\<newline>b'' = (''a  b'', []) \<and>
   sublist ''  '' (fst (parse_docstring ''a\<newline>\<newline>b''))"
  by code_simp

text \<open>
  Claim C5, amended. For every docstring none of whose lines is an Args marker (a line
  whose trimmed, lower-case form begins with \<^verbatim>\<open>args:\<close>), \<^verbatim>\<open>parse_docstring\<close> returns
  an empty mapping of parameters and, as summary, the trimmed lines of the whole text joined
  by single spaces, the result trimmed. (A blank line is an empty entry of that join.)
\<close>

theorem no_args_section:
  "\<forall>l\<in>set (split CHR ''\<newline>'' docstring). \<not> startswith (lower (strip l)) ''args:'' \<Longrightarrow>
   parse_docstring docstring =
     (strip (join '' '' (map strip (split CHR ''\<newline>'' docstring))), [])"
proof -
  assume no: "\<forall>l\<in>set (split CHR ''\<newline>'' docstring). \<not> startswith (lower (strip l)) ''args:''"
  have "\<not> in_args_section parse_init"
    by (simp add: parse_init_def)
  from parse_lines_no_marker [OF this no] show ?thesis
    by (simp add: parse_docstring_def Let_def parse_init_def)
qed

theorem no_args_section_witness:
  "parse_docstring ''First line.\<newline>  Second line.  '' = (''First line. Second line.'', [])"
proof -
  have "list_all (\<lambda>l. \<not> startswith (lower (strip l)) ''args:'')
          (split CHR ''\<newline>'' ''First line.\<newline>  Second line.  '')"
    by code_simp
  then have h: "\<forall>l\<in>set (split CHR ''\<newline>'' ''First line.\<newline>  Second line.  '').
             \<not> startswith (lower (strip l)) ''args:''"
    by (simp only: list_all_iff)
  have e: "strip (join '' '' (map strip (split CHR ''\<newline>'' ''First line.\<newline>  Second line.  '')))
             = ''First line. Second line.''"
    by code_simp
  from no_args_section [OF h] e show ?thesis
    by simp
qed

end
